theory Spec2Isabelle
  imports Complex_Main "HOL-Library.Word"
begin

section \<open>The ACM rule data source of the AHAS Go SDK\<close>

text \<open>
  The data source subscribes to four configuration documents (flow, system, circuit
  breaking and hot-spot parameter rules). Each change handler decodes the JSON payload
  into legacy rules, converts every legacy rule with its \<open>ToGoRule\<close> method, keeps the
  non-nil results and hands them to the \<open>LoadRules\<close> function of the matching package
  of the flow-control library.
\<close>

subsection \<open>Go values\<close>

text \<open>
  Fixed-width integers are words: \<open>uint32\<close>, \<open>int32\<close>, \<open>uint64\<close> and \<open>int64\<close>. A signed
  type is read with \<open>sint\<close>, an unsigned one with \<open>unat\<close>. Go's \<open>int\<close> is taken to be
  64 bits wide, as on every 64-bit target.
\<close>

type_synonym uint32 = "32 word"
type_synonym int32 = "32 word"
type_synonym uint64 = "64 word"
type_synonym int64 = "64 word"

text \<open>
  A \<open>float64\<close> is a finite number, an infinity or NaN. \<open>Finite r\<close> stands for the
  finite value \<open>r\<close>; every finite double is such a real (and \<open>-0\<close> and \<open>+0\<close>, which no
  comparison of the program tells apart, are both \<open>Finite 0\<close>).
\<close>

datatype float64 = Finite real | PosInf | NegInf | NaN

text \<open>The comparison \<open>x >= 0\<close> on a \<open>float64\<close>: false for NaN.\<close>

fun float64_ge_zero :: "float64 \<Rightarrow> bool" where
  "float64_ge_zero (Finite r) = (0 \<le> r)"
| "float64_ge_zero PosInf = True"
| "float64_ge_zero NegInf = False"
| "float64_ge_zero NaN = False"

text \<open>The comparison \<open>x < 0\<close> on a \<open>float64\<close>: false for NaN as well.\<close>

fun float64_lt_zero :: "float64 \<Rightarrow> bool" where
  "float64_lt_zero (Finite r) = (r < 0)"
| "float64_lt_zero PosInf = False"
| "float64_lt_zero NegInf = True"
| "float64_lt_zero NaN = False"

text \<open>
  The conversion \<open>float64(i)\<close> of an \<open>int64\<close> rounds to 53 significant bits, ties to
  even. \<open>excess m\<close> is the number of low bits a magnitude \<open>m\<close> has beyond 53.
\<close>

function excess :: "int \<Rightarrow> nat" where
  "excess m = (if m < 2 ^ 53 then 0 else Suc (excess (m div 2)))"
  by pat_completeness auto
termination
  by (relation "measure nat") auto

declare excess.simps [simp del]

definition round53 :: "int \<Rightarrow> int" where
  "round53 i =
     (let m = \<bar>i\<bar>; s = excess m in
      if s = 0 then i
      else
        let q = m div 2 ^ s; r = m mod 2 ^ s; h = 2 ^ (s - 1);
            q' = (if h < r \<or> (r = h \<and> odd q) then q + 1 else q)
        in sgn i * (q' * 2 ^ s))"

definition float64_of_int64 :: "int64 \<Rightarrow> float64" where
  "float64_of_int64 w = Finite (real_of_int (round53 (sint w)))"

text \<open>
  The conversions \<open>int64(x)\<close> and \<open>uint64(x)\<close> of a \<open>float64\<close> discard the fraction
  (truncation towards zero). Where the truncated value does not fit the target type, or
  \<open>x\<close> is an infinity or NaN, Go leaves the result to the implementation: it is the
  parameter \<open>impl\<close> here.
\<close>

definition trunc :: "real \<Rightarrow> int" where
  "trunc r = (if 0 \<le> r then \<lfloor>r\<rfloor> else \<lceil>r\<rceil>)"

fun int64_of_float64 :: "(float64 \<Rightarrow> int64) \<Rightarrow> float64 \<Rightarrow> int64" where
  "int64_of_float64 impl (Finite r) =
     (if - (2 ^ 63) \<le> trunc r \<and> trunc r < 2 ^ 63 then word_of_int (trunc r)
      else impl (Finite r))"
| "int64_of_float64 impl x = impl x"

fun uint64_of_float64 :: "(float64 \<Rightarrow> uint64) \<Rightarrow> float64 \<Rightarrow> uint64" where
  "uint64_of_float64 impl (Finite r) =
     (if 0 \<le> trunc r \<and> trunc r < 2 ^ 64 then word_of_int (trunc r)
      else impl (Finite r))"
| "uint64_of_float64 impl x = impl x"

text \<open>\<open>strconv.FormatUint(n, 10)\<close> and \<open>strconv.Itoa\<close>: decimal digits, most significant first.\<close>

definition digit :: "nat \<Rightarrow> char" where
  "digit d = ''0123456789'' ! d"

fun FormatUint :: "nat \<Rightarrow> string" where
  "FormatUint n = (if n < 10 then [digit n] else FormatUint (n div 10) @ [digit (n mod 10)])"

declare FormatUint.simps [simp del]

definition Itoa :: "int \<Rightarrow> string" where
  "Itoa i = (if i < 0 then CHR ''-'' # FormatUint (nat (- i)) else FormatUint (nat i))"

text \<open>A runtime panic of the handler.\<close>

datatype error = NilPointerDereference

subsection \<open>Data ids\<close>

definition AcmGroupId :: string where
  "AcmGroupId = ''ahas-sentinel''"

definition FlowRuleDataIdPrefix :: string where
  "FlowRuleDataIdPrefix = ''flow-rule-''"

definition SystemRuleDataIdPrefix :: string where
  "SystemRuleDataIdPrefix = ''system-rule-''"

definition CircuitBreakingRuleDataIdPrefix :: string where
  "CircuitBreakingRuleDataIdPrefix = ''degrade-rule-''"

definition ParamFlowRuleDataIdPrefix :: string where
  "ParamFlowRuleDataIdPrefix = ''param-flow-rule-''"

definition formFlowRuleDataId :: "string \<Rightarrow> string \<Rightarrow> string \<Rightarrow> string" where
  "formFlowRuleDataId userId namespace appName =
     FlowRuleDataIdPrefix @ userId @ ''-'' @ namespace @ ''-'' @ appName"

definition formSystemRuleDataId :: "string \<Rightarrow> string \<Rightarrow> string \<Rightarrow> string" where
  "formSystemRuleDataId userId namespace appName =
     SystemRuleDataIdPrefix @ userId @ ''-'' @ namespace @ ''-'' @ appName"

definition formCircuitBreakingRuleDataId :: "string \<Rightarrow> string \<Rightarrow> string \<Rightarrow> string" where
  "formCircuitBreakingRuleDataId userId namespace appName =
     CircuitBreakingRuleDataIdPrefix @ userId @ ''-'' @ namespace @ ''-'' @ appName"

definition formParamFlowRuleDataId :: "string \<Rightarrow> string \<Rightarrow> string \<Rightarrow> string" where
  "formParamFlowRuleDataId userId namespace appName =
     ParamFlowRuleDataIdPrefix @ userId @ ''-'' @ namespace @ ''-'' @ appName"

text \<open>
  The naming scheme in the words of the specification,
  \<open><prefix>-<tenantId>-<namespace>-<appName>\<close>: the four parts joined by hyphens.
\<close>

definition dataId_scheme :: "string \<Rightarrow> string \<Rightarrow> string \<Rightarrow> string \<Rightarrow> string" where
  "dataId_scheme prefix tenantId namespace appName =
     prefix @ ''-'' @ tenantId @ ''-'' @ namespace @ ''-'' @ appName"

subsection \<open>Flow rules\<close>

text \<open>
  \<open>flow.MetricType\<close>, \<open>flow.RelationStrategy\<close> and \<open>flow.ControlBehavior\<close> are \<open>int32\<close>
  enumerations of the flow-control library; the translator copies them as they are.
\<close>

record LegacyFlowRule =
  lf_ID :: uint64
  lf_Resource :: string
  lf_LimitOrigin :: string
  lf_MetricType :: int32
  lf_Count :: float64
  lf_Strategy :: int32
  lf_ControlBehavior :: int32
  lf_RefResource :: string
  lf_WarmUpPeriodSec :: uint32
  lf_MaxQueueingTimeMs :: uint32
  lf_ClusterMode :: bool

record FlowRule =
  fr_ID :: uint64
  fr_Resource :: string
  fr_LimitOrigin :: string
  fr_MetricType :: int32
  fr_Count :: float64
  fr_RelationStrategy :: int32
  fr_ControlBehavior :: int32
  fr_RefResource :: string
  fr_WarmUpPeriodSec :: uint32
  fr_MaxQueueingTimeMs :: uint32
  fr_ClusterMode :: bool

text \<open>
  The \<open>ToGoRule\<close> methods return a pointer: \<open>None\<close> is \<open>nil\<close>. They are given here for
  a receiver that is not \<open>nil\<close>; the call on a \<open>nil\<close> receiver is in \<open>translate\<close> below.
\<close>

definition LegacyFlowRule_ToGoRule :: "LegacyFlowRule \<Rightarrow> FlowRule option" where
  "LegacyFlowRule_ToGoRule lr =
     Some \<lparr>fr_ID = lf_ID lr,
           fr_Resource = lf_Resource lr,
           fr_LimitOrigin = lf_LimitOrigin lr,
           fr_MetricType = lf_MetricType lr,
           fr_Count = lf_Count lr,
           fr_RelationStrategy = lf_Strategy lr,
           fr_ControlBehavior = lf_ControlBehavior lr,
           fr_RefResource = lf_RefResource lr,
           fr_WarmUpPeriodSec = lf_WarmUpPeriodSec lr,
           fr_MaxQueueingTimeMs = lf_MaxQueueingTimeMs lr,
           fr_ClusterMode = lf_ClusterMode lr\<rparr>"

subsection \<open>System rules\<close>

text \<open>
  \<open>system.MetricType\<close> is a \<open>uint32\<close> whose named values the library numbers from 0:
  \<open>Load\<close>, \<open>AvgRT\<close>, \<open>Concurrency\<close>, \<open>InboundQPS\<close>, \<open>CpuUsage\<close>.
\<close>

type_synonym MetricType = uint32

definition Load :: MetricType where "Load = 0"
definition AvgRT :: MetricType where "AvgRT = 1"
definition Concurrency :: MetricType where "Concurrency = 2"
definition InboundQPS :: MetricType where "InboundQPS = 3"
definition CpuUsage :: MetricType where "CpuUsage = 4"

datatype AdaptiveStrategy = NoAdaptive | BBR

record LegacySystemRule =
  ls_ID :: uint64
  ls_Resource :: string
  ls_HighestSystemLoad :: float64
  ls_HighestCpuUsage :: float64
  ls_InboundQps :: float64
  ls_AvgRt :: int64
  ls_MaxConcurrency :: int64

record SystemRule =
  sr_ID :: uint64
  sr_TriggerCount :: float64
  sr_MetricType :: MetricType
  sr_Strategy :: AdaptiveStrategy

definition resolveTypeAndCount :: "LegacySystemRule \<Rightarrow> MetricType \<times> float64" where
  "resolveTypeAndCount lr =
     (if 0 \<le> sint (ls_AvgRt lr) then (AvgRT, float64_of_int64 (ls_AvgRt lr))
      else if 0 \<le> sint (ls_MaxConcurrency lr) then
        (Concurrency, float64_of_int64 (ls_MaxConcurrency lr))
      else if float64_ge_zero (ls_InboundQps lr) then (InboundQPS, ls_InboundQps lr)
      else if float64_ge_zero (ls_HighestCpuUsage lr) then (CpuUsage, ls_HighestCpuUsage lr)
      else if float64_ge_zero (ls_HighestSystemLoad lr) then (Load, ls_HighestSystemLoad lr)
      else (404, Finite (- 1)))"

definition LegacySystemRule_ToGoRule :: "LegacySystemRule \<Rightarrow> SystemRule option" where
  "LegacySystemRule_ToGoRule lr =
     (case resolveTypeAndCount lr of (mt, count) \<Rightarrow>
        let adaptive = (if mt = Load \<or> mt = CpuUsage then BBR else NoAdaptive)
        in Some \<lparr>sr_ID = ls_ID lr,
                 sr_TriggerCount = count,
                 sr_MetricType = mt,
                 sr_Strategy = adaptive\<rparr>)"

subsection \<open>Circuit breaking rules\<close>

datatype Strategy = SlowRequestRatio | ErrorRatio | ErrorCount

record LegacyDegradeRule =
  ld_ID :: uint64
  ld_Resource :: string
  ld_Threshold :: float64
  ld_Strategy :: uint32
  ld_RetryTimeoutSec :: uint32
  ld_MinRequestAmount :: uint64
  ld_SlowRatioThreshold :: float64
  ld_StatIntervalMs :: uint32

text \<open>
  \<open>circuitbreaker.Rule\<close>, with the fields the translator sets. \<open>cb_Strategy\<close> and
  \<open>cb_MaxAllowedRtMs\<close> start at their zero values, \<open>SlowRequestRatio\<close> and 0.
\<close>

record Rule =
  cb_Id :: string
  cb_Resource :: string
  cb_Strategy :: Strategy
  cb_RetryTimeoutMs :: uint32
  cb_MinRequestAmount :: uint64
  cb_StatIntervalMs :: uint32
  cb_MaxAllowedRtMs :: uint64
  cb_Threshold :: float64

definition LegacyDegradeRule_ToGoRule ::
  "(float64 \<Rightarrow> uint64) \<Rightarrow> LegacyDegradeRule \<Rightarrow> Rule option" where
  "LegacyDegradeRule_ToGoRule impl lr =
     (let rule = \<lparr>cb_Id = FormatUint (unat (ld_ID lr)),
                   cb_Resource = ld_Resource lr,
                   cb_Strategy = SlowRequestRatio,
                   cb_RetryTimeoutMs = ld_RetryTimeoutSec lr * 1000,
                   cb_MinRequestAmount = ld_MinRequestAmount lr,
                   cb_StatIntervalMs = ld_StatIntervalMs lr,
                   cb_MaxAllowedRtMs = 0,
                   cb_Threshold = ld_Threshold lr\<rparr>
      in if ld_Strategy lr = 0 then
           Some (rule\<lparr>cb_Strategy := SlowRequestRatio,
                      cb_Threshold := ld_SlowRatioThreshold lr,
                      cb_MaxAllowedRtMs := uint64_of_float64 impl (ld_Threshold lr)\<rparr>)
         else if ld_Strategy lr = 1 then Some (rule\<lparr>cb_Strategy := ErrorRatio\<rparr>)
         else if ld_Strategy lr = 2 then Some (rule\<lparr>cb_Strategy := ErrorCount\<rparr>)
         else None)"

subsection \<open>Hot-spot parameter rules\<close>

datatype ParamKind = KindInt | KindString | KindBool | KindFloat64

datatype ControlBehavior = Reject | Throttling

record LegacyParamFlowItem =
  pi_Value :: string
  pi_Threshold :: float64
  pi_ParamType :: string

text \<open>\<open>SpecificItems\<close> is a slice of pointers: an entry \<open>None\<close> is a \<open>nil\<close> pointer.\<close>

record LegacyParamFlowRule =
  lp_Id :: uint64
  lp_Resource :: string
  lp_MetricType :: int32
  lp_Threshold :: float64
  lp_ParamIndex :: int32
  lp_DurationInSec :: int64
  lp_ControlBehavior :: uint32
  lp_MaxQueueingTimeMs :: int64
  lp_BurstCount :: int64
  lp_SpecificItems :: "LegacyParamFlowItem option list"
  lp_ClusterMode :: bool

record SpecificValue =
  sv_ValKind :: ParamKind
  sv_ValStr :: string
  sv_Threshold :: int64

record HotspotRule =
  hr_ID :: string
  hr_Resource :: string
  hr_MetricType :: int32
  hr_Threshold :: float64
  hr_ControlBehavior :: ControlBehavior
  hr_ParamIndex :: int64
  hr_MaxQueueingTimeMs :: int64
  hr_BurstCount :: int64
  hr_DurationInSec :: int64
  hr_ParamsMaxCapacity :: int64
  hr_SpecificItems :: "SpecificValue list"

text \<open>
  The loop over \<open>lr.SpecificItems\<close>, with \<open>items\<close> as the accumulator. Reading
  \<open>v.Value\<close> of a \<open>nil\<close> entry panics.
\<close>

fun specificItems ::
  "(float64 \<Rightarrow> int64) \<Rightarrow> LegacyParamFlowItem option list \<Rightarrow> SpecificValue list \<Rightarrow>
   error + SpecificValue list" where
  "specificItems impl [] items = Inr items"
| "specificItems impl (None # vs) items = Inl NilPointerDereference"
| "specificItems impl (Some v # vs) items =
     (if length (pi_Value v) = 0 then specificItems impl vs items
      else if pi_ParamType v = ''int'' \<or> pi_ParamType v = ''long'' then
        specificItems impl vs
          (items @ [\<lparr>sv_ValKind = KindInt, sv_ValStr = pi_Value v,
                      sv_Threshold = int64_of_float64 impl (pi_Threshold v)\<rparr>])
      else if pi_ParamType v = ''bool'' \<or> pi_ParamType v = ''boolean'' then
        specificItems impl vs
          (items @ [\<lparr>sv_ValKind = KindBool, sv_ValStr = pi_Value v,
                      sv_Threshold = int64_of_float64 impl (pi_Threshold v)\<rparr>])
      else if pi_ParamType v = ''double'' \<or> pi_ParamType v = ''float'' then
        specificItems impl vs
          (items @ [\<lparr>sv_ValKind = KindFloat64, sv_ValStr = pi_Value v,
                      sv_Threshold = int64_of_float64 impl (pi_Threshold v)\<rparr>])
      else
        specificItems impl vs
          (items @ [\<lparr>sv_ValKind = KindString, sv_ValStr = pi_Value v,
                      sv_Threshold = int64_of_float64 impl (pi_Threshold v)\<rparr>]))"

definition LegacyParamFlowRule_ToGoRule ::
  "(float64 \<Rightarrow> int64) \<Rightarrow> LegacyParamFlowRule \<Rightarrow> error + HotspotRule option" where
  "LegacyParamFlowRule_ToGoRule impl lr =
     (let cb = (if lp_ControlBehavior lr = 2 then Throttling else Reject) in
      case (if 0 < length (lp_SpecificItems lr) then specificItems impl (lp_SpecificItems lr) []
            else Inr []) of
        Inl e \<Rightarrow> Inl e
      | Inr items \<Rightarrow>
          Inr (Some \<lparr>hr_ID = Itoa (sint (lp_Id lr)),
                     hr_Resource = lp_Resource lr,
                     hr_MetricType = lp_MetricType lr,
                     hr_Threshold = lp_Threshold lr,
                     hr_ControlBehavior = cb,
                     hr_ParamIndex = scast (lp_ParamIndex lr),
                     hr_MaxQueueingTimeMs = lp_MaxQueueingTimeMs lr,
                     hr_BurstCount = lp_BurstCount lr,
                     hr_DurationInSec = lp_DurationInSec lr,
                     hr_ParamsMaxCapacity = 500,
                     hr_SpecificItems = items\<rparr>))"

subsection \<open>Change handlers\<close>

text \<open>
  The payload envelope the handlers decode into. \<open>Data\<close> is a slice of pointers: the
  JSON value \<open>null\<close> decodes to an entry \<open>None\<close>, a \<open>nil\<close> pointer.
\<close>

record 'r envelope =
  Version :: string
  Data :: "'r option list"

text \<open>A logger call: the format string and its rendered argument.\<close>

datatype log_entry = Infof string string | Errorf string string

text \<open>A call of the rule engine that replaces the rule set of one category.\<close>

datatype engine_call =
  FlowLoadRules "FlowRule list"
| SystemLoadRules "SystemRule list"
| CircuitBreakerLoadRules "Rule list"
| HotspotLoadRules "HotspotRule list"

text \<open>
  What a handler acts on: the state \<open>engine\<close> of the rule engine, which belongs to the
  library and is opaque here, the calls made to it so far and the log written so far.
\<close>

record 'e world =
  engine :: 'e
  calls :: "engine_call list"
  logs :: "log_entry list"

definition write_log :: "log_entry \<Rightarrow> 'e world \<Rightarrow> 'e world" where
  "write_log l w = w\<lparr>logs := logs w @ [l]\<rparr>"

text \<open>
  The loop \<open>for _, r := range d.Data\<close> of every handler, with \<open>arr\<close> as the accumulator:
  \<open>r.ToGoRule()\<close> on a \<open>nil\<close> entry panics at its first field access, a \<open>nil\<close> result is
  skipped, any other result is appended.
\<close>

fun translate ::
  "('l \<Rightarrow> error + 'r option) \<Rightarrow> 'l option list \<Rightarrow> 'r list \<Rightarrow> error + 'r list" where
  "translate ToGoRule [] arr = Inr arr"
| "translate ToGoRule (None # rs) arr = Inl NilPointerDereference"
| "translate ToGoRule (Some r # rs) arr =
     (case ToGoRule r of
        Inl e \<Rightarrow> Inl e
      | Inr None \<Rightarrow> translate ToGoRule rs arr
      | Inr (Some rule) \<Rightarrow> translate ToGoRule rs (arr @ [rule]))"

text \<open>
  The call \<open>LoadRules(arr)\<close>: the library's function \<open>LoadRules\<close> returns an error or
  none and the new state of the engine. \<open>failure\<close> is the format of the error message.
\<close>

definition load ::
  "('r list \<Rightarrow> 'e \<Rightarrow> string option \<times> 'e) \<Rightarrow> ('r list \<Rightarrow> engine_call) \<Rightarrow> string \<Rightarrow>
   'r list \<Rightarrow> 'e world \<Rightarrow> 'e world" where
  "load LoadRules call failure arr w =
     (case LoadRules arr (engine w) of
        (err, e') \<Rightarrow>
          let w' = w\<lparr>engine := e', calls := calls w @ [call arr]\<rparr>
          in (case err of None \<Rightarrow> w' | Some msg \<Rightarrow> write_log (Errorf failure msg) w'))"

text \<open>
  The handlers take \<open>json.Unmarshal\<close> at the type of their envelope (\<open>Inl\<close> its error)
  and the \<open>LoadRules\<close> of their package as parameters. A handler returns nothing: its
  result is the world it leaves, or the panic that ends it.
\<close>

definition onFlowRuleChange ::
  "(string \<Rightarrow> string + LegacyFlowRule envelope) \<Rightarrow>
   (FlowRule list \<Rightarrow> 'e \<Rightarrow> string option \<times> 'e) \<Rightarrow> string \<Rightarrow> 'e world \<Rightarrow> error + 'e world" where
  "onFlowRuleChange Unmarshal LoadRules data w =
     (let w1 = write_log (Infof ''ACM data received for flow rules: %v'' data) w in
      case Unmarshal data of
        Inl err \<Rightarrow> Inr (write_log (Errorf ''Failed to parse flow rules: %+v'' err) w1)
      | Inr d \<Rightarrow>
          (case translate (\<lambda>r. Inr (LegacyFlowRule_ToGoRule r)) (Data d) [] of
             Inl e \<Rightarrow> Inl e
           | Inr arr \<Rightarrow>
               Inr (load LoadRules FlowLoadRules ''Failed to load flow rules: %+v'' arr w1)))"

definition onSystemRuleChange ::
  "(string \<Rightarrow> string + LegacySystemRule envelope) \<Rightarrow>
   (SystemRule list \<Rightarrow> 'e \<Rightarrow> string option \<times> 'e) \<Rightarrow> string \<Rightarrow> 'e world \<Rightarrow> error + 'e world" where
  "onSystemRuleChange Unmarshal LoadRules data w =
     (let w1 = write_log (Infof ''ACM data received for system rules: %v'' data) w in
      case Unmarshal data of
        Inl err \<Rightarrow> Inr (write_log (Errorf ''Failed to parse system rules: %+v'' err) w1)
      | Inr d \<Rightarrow>
          (case translate (\<lambda>r. Inr (LegacySystemRule_ToGoRule r)) (Data d) [] of
             Inl e \<Rightarrow> Inl e
           | Inr arr \<Rightarrow>
               Inr (load LoadRules SystemLoadRules ''Failed to load system rules: %+v'' arr w1)))"

definition onCircuitBreakingRuleChange ::
  "(float64 \<Rightarrow> uint64) \<Rightarrow> (string \<Rightarrow> string + LegacyDegradeRule envelope) \<Rightarrow>
   (Rule list \<Rightarrow> 'e \<Rightarrow> string option \<times> 'e) \<Rightarrow> string \<Rightarrow> 'e world \<Rightarrow> error + 'e world" where
  "onCircuitBreakingRuleChange impl Unmarshal LoadRules data w =
     (let w1 = write_log (Infof ''ACM data received for circuit breaking rules: %v'' data) w in
      case Unmarshal data of
        Inl err \<Rightarrow> Inr (write_log (Errorf ''Failed to parse legacy degrade rules: %+v'' err) w1)
      | Inr d \<Rightarrow>
          (case translate (\<lambda>r. Inr (LegacyDegradeRule_ToGoRule impl r)) (Data d) [] of
             Inl e \<Rightarrow> Inl e
           | Inr arr \<Rightarrow>
               Inr (load LoadRules CircuitBreakerLoadRules ''Failed to load flow rules: %+v''
                      arr w1)))"

definition onParamFlowRuleChange ::
  "(float64 \<Rightarrow> int64) \<Rightarrow> (string \<Rightarrow> string + LegacyParamFlowRule envelope) \<Rightarrow>
   (HotspotRule list \<Rightarrow> 'e \<Rightarrow> string option \<times> 'e) \<Rightarrow> string \<Rightarrow> 'e world \<Rightarrow> error + 'e world" where
  "onParamFlowRuleChange impl Unmarshal LoadRules data w =
     (let w1 = write_log (Infof ''ACM data received for hot-spot parameter flow rules: %v'' data) w in
      case Unmarshal data of
        Inl err \<Rightarrow> Inr (write_log (Errorf ''Failed to parse legacy param flow rules: %+v'' err) w1)
      | Inr d \<Rightarrow>
          (case translate (LegacyParamFlowRule_ToGoRule impl) (Data d) [] of
             Inl e \<Rightarrow> Inl e
           | Inr arr \<Rightarrow>
               Inr (load LoadRules HotspotLoadRules
                      ''Failed to load hot-spot parameter flow rules: %+v'' arr w1)))"

subsection \<open>The specification's reading of the translators\<close>

text \<open>
  The five legacy fields of a system rule in the order the specification gives them:
  the metric a field stands for, whether its value is at least 0, and its value as the
  \<open>float64\<close> a trigger count is.
\<close>

definition active_candidates :: "LegacySystemRule \<Rightarrow> (MetricType \<times> bool \<times> float64) list" where
  "active_candidates lr =
     [(AvgRT, 0 \<le> sint (ls_AvgRt lr), float64_of_int64 (ls_AvgRt lr)),
      (Concurrency, 0 \<le> sint (ls_MaxConcurrency lr), float64_of_int64 (ls_MaxConcurrency lr)),
      (InboundQPS, float64_ge_zero (ls_InboundQps lr), ls_InboundQps lr),
      (CpuUsage, float64_ge_zero (ls_HighestCpuUsage lr), ls_HighestCpuUsage lr),
      (Load, float64_ge_zero (ls_HighestSystemLoad lr), ls_HighestSystemLoad lr)]"

text \<open>The first field of that list whose value is at least 0, if there is one.\<close>

definition first_active :: "LegacySystemRule \<Rightarrow> (MetricType \<times> float64) option" where
  "first_active lr =
     (case find (\<lambda>(m, ok, v). ok) (active_candidates lr) of
        None \<Rightarrow> None
      | Some (m, ok, v) \<Rightarrow> Some (m, v))"

text \<open>The kind of an override item by exact comparison of its type tag with a table.\<close>

definition exact_kind :: "string \<Rightarrow> ParamKind" where
  "exact_kind tag =
     (case map_of [(''int'', KindInt), (''long'', KindInt), (''bool'', KindBool),
                   (''boolean'', KindBool), (''double'', KindFloat64), (''float'', KindFloat64)]
             tag of
        None \<Rightarrow> KindString
      | Some k \<Rightarrow> k)"

text \<open>
  The kind by a comparison that ignores case, as the specification words it: the tag
  is brought to lower case before the table is read.
\<close>

definition to_lower :: "char \<Rightarrow> char" where
  "to_lower c =
     (case map_of (zip ''ABCDEFGHIJKLMNOPQRSTUVWXYZ'' ''abcdefghijklmnopqrstuvwxyz'') c of
        None \<Rightarrow> c
      | Some l \<Rightarrow> l)"

definition folded_kind :: "string \<Rightarrow> ParamKind" where
  "folded_kind tag = exact_kind (map to_lower tag)"

text \<open>The override items of a rule that have a value, and what one of them becomes.\<close>

definition kept_items :: "LegacyParamFlowRule \<Rightarrow> LegacyParamFlowItem list" where
  "kept_items lr = filter (\<lambda>v. pi_Value v \<noteq> []) (map the (lp_SpecificItems lr))"

definition specific_value :: "(float64 \<Rightarrow> int64) \<Rightarrow> LegacyParamFlowItem \<Rightarrow> SpecificValue" where
  "specific_value impl v =
     \<lparr>sv_ValKind = exact_kind (pi_ParamType v), sv_ValStr = pi_Value v,
      sv_Threshold = int64_of_float64 impl (pi_Threshold v)\<rparr>"

subsection \<open>Example inputs\<close>

text \<open>
  Stand-ins for the library in the examples: a decoder that yields a given envelope,
  one that fails with a given error, an engine that accepts every rule set, and the
  result \<open>0x8000000000000000\<close> of an out-of-range conversion on amd64.
\<close>

definition decoded :: "'r envelope \<Rightarrow> string \<Rightarrow> string + 'r envelope" where
  "decoded d data = Inr d"

definition rejected :: "string \<Rightarrow> string \<Rightarrow> string + 'r envelope" where
  "rejected err data = Inl err"

definition accepted :: "'r list \<Rightarrow> unit \<Rightarrow> string option \<times> unit" where
  "accepted arr e = (None, e)"

definition indefinite :: "float64 \<Rightarrow> 64 word" where
  "indefinite x = 2 ^ 63"

definition start :: "unit world" where
  "start = \<lparr>engine = (), calls = [], logs = []\<rparr>"

definition all_negative :: LegacySystemRule where
  "all_negative =
     \<lparr>ls_ID = 7, ls_Resource = ''r'', ls_HighestSystemLoad = Finite (- 1),
      ls_HighestCpuUsage = Finite (- 1), ls_InboundQps = Finite (- 1),
      ls_AvgRt = - 1, ls_MaxConcurrency = - 1\<rparr>"

definition slow_rule :: LegacyDegradeRule where
  "slow_rule =
     \<lparr>ld_ID = 3, ld_Resource = ''r'', ld_Threshold = Finite 200, ld_Strategy = 0,
      ld_RetryTimeoutSec = 5, ld_MinRequestAmount = 10, ld_SlowRatioThreshold = Finite (1 / 2),
      ld_StatIntervalMs = 1000\<rparr>"

definition unknown_grade_rule :: LegacyDegradeRule where
  "unknown_grade_rule = slow_rule\<lparr>ld_ID := 4, ld_Strategy := 5\<rparr>"

definition plain_flow_rule :: LegacyFlowRule where
  "plain_flow_rule =
     \<lparr>lf_ID = 1, lf_Resource = ''r1'', lf_LimitOrigin = [], lf_MetricType = 1,
      lf_Count = Finite 10, lf_Strategy = 0, lf_ControlBehavior = 0, lf_RefResource = [],
      lf_WarmUpPeriodSec = 0, lf_MaxQueueingTimeMs = 0, lf_ClusterMode = False\<rparr>"

definition override_rule :: LegacyParamFlowRule where
  "override_rule =
     \<lparr>lp_Id = 1, lp_Resource = ''r'', lp_MetricType = 1, lp_Threshold = Finite (5 / 2),
      lp_ParamIndex = 0, lp_DurationInSec = 1, lp_ControlBehavior = 0,
      lp_MaxQueueingTimeMs = 0, lp_BurstCount = 0,
      lp_SpecificItems =
        [Some \<lparr>pi_Value = ''7'', pi_Threshold = Finite (7 / 2), pi_ParamType = ''int''\<rparr>,
         Some \<lparr>pi_Value = [], pi_Threshold = Finite 1, pi_ParamType = ''int''\<rparr>,
         Some \<lparr>pi_Value = ''x'', pi_Threshold = Finite (- (3 / 2)), pi_ParamType = ''INT''\<rparr>],
      lp_ClusterMode = False\<rparr>"

section \<open>Properties\<close>

subsection \<open>Conversions\<close>

lemma trunc_discards_fraction:
  "\<bar>real_of_int (trunc x)\<bar> \<le> \<bar>x\<bar> \<and> \<bar>x - real_of_int (trunc x)\<bar> < 1"
  unfolding trunc_def by (cases "0 \<le> x") (simp_all, linarith+)

lemma int64_of_float64_in_range:
  "- (2 ^ 63) \<le> trunc x \<Longrightarrow> trunc x < 2 ^ 63 \<Longrightarrow>
   sint (int64_of_float64 impl (Finite x)) = trunc x"
  by (simp add: sint_sbintrunc' signed_take_bit_int_eq_self)

lemma uint64_of_float64_in_range:
  "0 \<le> x \<Longrightarrow> x < 2 ^ 64 \<Longrightarrow> uint (uint64_of_float64 impl (Finite x)) = \<lfloor>x\<rfloor>"
proof -
  assume a: "0 \<le> x" "x < 2 ^ 64"
  then have "0 \<le> \<lfloor>x\<rfloor>" "\<lfloor>x\<rfloor> < 2 ^ 64"
    by (simp_all add: floor_less_iff)
  then show ?thesis using a
    by (simp add: trunc_def uint_word_of_int take_bit_int_eq_self)
qed

text \<open>An \<open>int64\<close> of magnitude below \<open>2 ^ 53\<close> converts to \<open>float64\<close> without rounding; a larger one may round.\<close>

lemma float64_of_int64_exact:
  "\<bar>sint w\<bar> < 2 ^ 53 \<Longrightarrow> float64_of_int64 w = Finite (real_of_int (sint w))"
  by (simp add: float64_of_int64_def round53_def excess.simps Let_def)

lemma float64_of_int64_rounds:
  "float64_of_int64 9007199254740993 = Finite 9007199254740992"
  by (simp add: float64_of_int64_def round53_def excess.simps Let_def)

lemma float64_lt_zero_not_ge: "float64_lt_zero x \<Longrightarrow> \<not> float64_ge_zero x"
  by (cases x) simp_all

subsection \<open>The translation loop and the engine call\<close>

lemma translate_pure:
  "None \<notin> set rs \<Longrightarrow>
   translate (\<lambda>r. Inr (f r)) rs arr = Inr (arr @ List.map_filter f (map the rs))"
proof (induction rs arbitrary: arr)
  case Nil
  then show ?case by simp
next
  case (Cons a rs)
  then obtain x where a: "a = Some x" by (cases a) auto
  from Cons have IH: "\<And>arr. translate (\<lambda>r. Inr (f r)) rs arr = Inr (arr @ List.map_filter f (map the rs))"
    by simp
  show ?case
    by (cases "f x") (simp_all add: a IH)
qed

lemma map_Some_map_filter:
  "map Some (List.map_filter f xs) = map f (filter (\<lambda>x. f x \<noteq> None) xs)"
  by (induction xs) (auto split: option.splits)

lemma mem_map_filter:
  "x \<in> set xs \<Longrightarrow> f x = Some y \<Longrightarrow> y \<in> set (List.map_filter f xs)"
  by (induction xs) (auto split: option.splits)

lemma length_map_filter_total:
  "(\<And>x. f x \<noteq> None) \<Longrightarrow> length (List.map_filter f xs) = length xs"
  using map_Some_map_filter [of f xs, THEN arg_cong, of length] by simp

lemma calls_load: "calls (load L c fmt arr w) = calls w @ [c arr]"
  by (cases "L arr (engine w)") (simp add: load_def write_log_def Let_def split: option.splits)

lemma calls_write_log: "calls (write_log l w) = calls w"
  by (simp add: write_log_def)

lemma engine_write_log: "engine (write_log l w) = engine w"
  by (simp add: write_log_def)

lemma logs_write_log: "logs (write_log l w) = logs w @ [l]"
  by (simp add: write_log_def)

text \<open>
  A payload that decodes, with no \<open>null\<close> among its rules: the handler calls
  \<open>LoadRules\<close> once, with the rules its translator returns.
\<close>

lemma onFlowRuleChange_decoded:
  assumes "Unmarshal data = Inr d" "None \<notin> set (Data d)"
  shows "onFlowRuleChange Unmarshal LoadRules data w =
     Inr (load LoadRules FlowLoadRules ''Failed to load flow rules: %+v''
            (List.map_filter LegacyFlowRule_ToGoRule (map the (Data d)))
            (write_log (Infof ''ACM data received for flow rules: %v'' data) w))"
  using assms by (simp add: onFlowRuleChange_def Let_def translate_pure)

lemma onSystemRuleChange_decoded:
  assumes "Unmarshal data = Inr d" "None \<notin> set (Data d)"
  shows "onSystemRuleChange Unmarshal LoadRules data w =
     Inr (load LoadRules SystemLoadRules ''Failed to load system rules: %+v''
            (List.map_filter LegacySystemRule_ToGoRule (map the (Data d)))
            (write_log (Infof ''ACM data received for system rules: %v'' data) w))"
  using assms by (simp add: onSystemRuleChange_def Let_def translate_pure)

lemma onCircuitBreakingRuleChange_decoded:
  assumes "Unmarshal data = Inr d" "None \<notin> set (Data d)"
  shows "onCircuitBreakingRuleChange impl Unmarshal LoadRules data w =
     Inr (load LoadRules CircuitBreakerLoadRules ''Failed to load flow rules: %+v''
            (List.map_filter (LegacyDegradeRule_ToGoRule impl) (map the (Data d)))
            (write_log (Infof ''ACM data received for circuit breaking rules: %v'' data) w))"
  using assms by (simp add: onCircuitBreakingRuleChange_def Let_def translate_pure)

text \<open>A \<open>null\<close> among the rules ends the handler with a panic, before any call of the engine.\<close>

lemma null_entry_panics:
  "Unmarshal data = Inr d \<Longrightarrow> Data d = None # rs \<Longrightarrow>
   onFlowRuleChange Unmarshal LoadRules data w = Inl NilPointerDereference"
  by (simp add: onFlowRuleChange_def Let_def)

subsection \<open>Data ids\<close>

text \<open>
  Claim C7, amended. The data id of a category is its prefix, which already ends in a
  hyphen, followed at once by the tenant id, then a hyphen, the namespace, a hyphen and
  the application name: \<open><prefix><tenantId>-<namespace>-<appName>\<close>, with the prefixes
  \<open>flow-rule-\<close>, \<open>system-rule-\<close>, \<open>degrade-rule-\<close> and \<open>param-flow-rule-\<close>.
\<close>

theorem data_id_is_prefix_then_parts:
  "formFlowRuleDataId tenantId namespace appName =
     ''flow-rule-'' @ tenantId @ ''-'' @ namespace @ ''-'' @ appName \<and>
   formSystemRuleDataId tenantId namespace appName =
     ''system-rule-'' @ tenantId @ ''-'' @ namespace @ ''-'' @ appName \<and>
   formCircuitBreakingRuleDataId tenantId namespace appName =
     ''degrade-rule-'' @ tenantId @ ''-'' @ namespace @ ''-'' @ appName \<and>
   formParamFlowRuleDataId tenantId namespace appName =
     ''param-flow-rule-'' @ tenantId @ ''-'' @ namespace @ ''-'' @ appName"
  by (simp add: formFlowRuleDataId_def formSystemRuleDataId_def
      formCircuitBreakingRuleDataId_def formParamFlowRuleDataId_def FlowRuleDataIdPrefix_def
      SystemRuleDataIdPrefix_def CircuitBreakingRuleDataIdPrefix_def
      ParamFlowRuleDataIdPrefix_def)

text \<open>
  With a hyphen between the prefix and the tenant id, as the specification writes the
  scheme, the id would have two hyphens in a row; the one the code forms has one.
\<close>

theorem data_id_scheme_has_extra_hyphen:
  "formFlowRuleDataId ''u'' ''n'' ''a'' = ''flow-rule-u-n-a'' \<and>
   dataId_scheme FlowRuleDataIdPrefix ''u'' ''n'' ''a'' = ''flow-rule--u-n-a'' \<and>
   formFlowRuleDataId ''u'' ''n'' ''a'' \<noteq> dataId_scheme FlowRuleDataIdPrefix ''u'' ''n'' ''a''"
  by (simp add: formFlowRuleDataId_def dataId_scheme_def FlowRuleDataIdPrefix_def)

subsection \<open>Flow rules\<close>

text \<open>
  Claim C9. The flow translator returns a rule for every legacy flow rule, each field
  copied from the field of the same role. So for a payload that decodes, with no
  \<open>null\<close> among its rules, the handler drops nothing: the rule set it passes to the
  engine has the length of the decoded \<open>Data\<close> and holds the translation of each of
  its rules, in order.
\<close>

theorem flow_translation_total_and_lossless:
  "(\<exists>r. LegacyFlowRule_ToGoRule lr = Some r \<and>
      fr_ID r = lf_ID lr \<and> fr_Resource r = lf_Resource lr \<and>
      fr_LimitOrigin r = lf_LimitOrigin lr \<and> fr_MetricType r = lf_MetricType lr \<and>
      fr_Count r = lf_Count lr \<and> fr_RelationStrategy r = lf_Strategy lr \<and>
      fr_ControlBehavior r = lf_ControlBehavior lr \<and> fr_RefResource r = lf_RefResource lr \<and>
      fr_WarmUpPeriodSec r = lf_WarmUpPeriodSec lr \<and>
      fr_MaxQueueingTimeMs r = lf_MaxQueueingTimeMs lr \<and>
      fr_ClusterMode r = lf_ClusterMode lr) \<and>
   (Unmarshal data = Inr d \<and> None \<notin> set (Data d) \<longrightarrow>
      (\<exists>w' arr. onFlowRuleChange Unmarshal LoadRules data w = Inr w' \<and>
         calls w' = calls w @ [FlowLoadRules arr] \<and>
         length arr = length (Data d) \<and>
         map Some arr = map (\<lambda>r. LegacyFlowRule_ToGoRule (the r)) (Data d)))"
proof -
  have total: "LegacyFlowRule_ToGoRule x \<noteq> None" for x
    by (simp add: LegacyFlowRule_ToGoRule_def)
  have copy: "\<exists>r. LegacyFlowRule_ToGoRule lr = Some r \<and>
      fr_ID r = lf_ID lr \<and> fr_Resource r = lf_Resource lr \<and>
      fr_LimitOrigin r = lf_LimitOrigin lr \<and> fr_MetricType r = lf_MetricType lr \<and>
      fr_Count r = lf_Count lr \<and> fr_RelationStrategy r = lf_Strategy lr \<and>
      fr_ControlBehavior r = lf_ControlBehavior lr \<and> fr_RefResource r = lf_RefResource lr \<and>
      fr_WarmUpPeriodSec r = lf_WarmUpPeriodSec lr \<and>
      fr_MaxQueueingTimeMs r = lf_MaxQueueingTimeMs lr \<and>
      fr_ClusterMode r = lf_ClusterMode lr"
    by (simp add: LegacyFlowRule_ToGoRule_def)
  have handler: "\<exists>w' arr. onFlowRuleChange Unmarshal LoadRules data w = Inr w' \<and>
         calls w' = calls w @ [FlowLoadRules arr] \<and>
         length arr = length (Data d) \<and>
         map Some arr = map (\<lambda>r. LegacyFlowRule_ToGoRule (the r)) (Data d)"
    if d: "Unmarshal data = Inr d" "None \<notin> set (Data d)"
  proof -
    let ?arr = "List.map_filter LegacyFlowRule_ToGoRule (map the (Data d))"
    have "map Some ?arr = map (\<lambda>r. LegacyFlowRule_ToGoRule (the r)) (Data d)"
      by (simp add: map_Some_map_filter total comp_def)
    moreover have "length ?arr = length (Data d)"
      by (simp add: length_map_filter_total total)
    ultimately show ?thesis
      using d by (simp add: onFlowRuleChange_decoded [where d = d] calls_load calls_write_log)
  qed
  from copy handler show ?thesis by blast
qed

theorem flow_translation_total_and_lossless_witness:
  "(\<exists>w' arr.
      onFlowRuleChange
        (decoded \<lparr>Version = ''1'', Data = [Some plain_flow_rule, Some plain_flow_rule]\<rparr>)
        accepted ''{}'' start = Inr w' \<and>
      calls w' = [FlowLoadRules arr] \<and> length arr = 2 \<and>
      map Some arr = [LegacyFlowRule_ToGoRule plain_flow_rule, LegacyFlowRule_ToGoRule plain_flow_rule])"
proof -
  let ?d = "\<lparr>Version = ''1'', Data = [Some plain_flow_rule, Some plain_flow_rule]\<rparr>"
  have d: "decoded ?d ''{}'' = Inr ?d \<and> None \<notin> set (Data ?d)"
    by (simp add: decoded_def)
  have s: "calls start = []"
    by (simp add: start_def)
  show ?thesis
    using flow_translation_total_and_lossless [of plain_flow_rule "decoded ?d" "''{}''" ?d accepted start] d s
    by (simp add: numeral_2_eq_2)
qed

subsection \<open>System rules\<close>

lemma resolveTypeAndCount_first_active:
  "resolveTypeAndCount lr =
     (case first_active lr of None \<Rightarrow> (404, Finite (- 1)) | Some p \<Rightarrow> p)"
  by (simp add: resolveTypeAndCount_def first_active_def active_candidates_def)

text \<open>
  Claim C1. The translator goes through the legacy fields \<open>avgRt\<close>, \<open>maxConcurrency\<close>,
  \<open>inboundQps\<close>, \<open>cpuUsage\<close>, \<open>highestSystemLoad\<close> in this order, and the metric type
  and trigger count of the rule it returns are the metric and the value of the first of
  them that is at least 0 (an integer field's value as the \<open>float64\<close> it converts to);
  when no field is, they are 404 and -1.
\<close>

theorem system_rule_takes_first_nonnegative_field:
  "\<exists>r. LegacySystemRule_ToGoRule lr = Some r \<and>
     (sr_MetricType r, sr_TriggerCount r) =
       (case first_active lr of None \<Rightarrow> (404, Finite (- 1)) | Some p \<Rightarrow> p)"
proof (cases "resolveTypeAndCount lr")
  case (Pair mt count)
  then have "LegacySystemRule_ToGoRule lr =
      Some \<lparr>sr_ID = ls_ID lr, sr_TriggerCount = count, sr_MetricType = mt,
            sr_Strategy = (if mt = Load \<or> mt = CpuUsage then BBR else NoAdaptive)\<rparr>"
    by (simp add: LegacySystemRule_ToGoRule_def)
  moreover have "(case first_active lr of None \<Rightarrow> (404, Finite (- 1)) | Some p \<Rightarrow> p) = (mt, count)"
    using Pair resolveTypeAndCount_first_active [of lr] by simp
  ultimately show ?thesis by simp
qed

lemma LegacySystemRule_ToGoRule_total: "LegacySystemRule_ToGoRule lr \<noteq> None"
  by (simp add: LegacySystemRule_ToGoRule_def split: prod.splits)

lemma resolve_all_negative:
  assumes "sint (ls_AvgRt lr) < 0" "sint (ls_MaxConcurrency lr) < 0"
    "float64_lt_zero (ls_InboundQps lr)" "float64_lt_zero (ls_HighestCpuUsage lr)"
    "float64_lt_zero (ls_HighestSystemLoad lr)"
  shows "resolveTypeAndCount lr = (404, Finite (- 1))"
  using assms by (simp add: resolveTypeAndCount_def float64_lt_zero_not_ge)

text \<open>
  Claim C2, amended. For a legacy system rule whose five fields are all below 0 the
  translator yields the invalid marker, metric type 404 and count -1, as a rule that is
  not \<open>nil\<close>; the handler does not drop it: for a payload that decodes, with no \<open>null\<close>
  among its rules, the marker is in the rule set passed to the engine, which has as
  many rules as the payload.
\<close>

theorem all_negative_rule_is_marked_and_passed_on:
  assumes "sint (ls_AvgRt lr) < 0" "sint (ls_MaxConcurrency lr) < 0"
    "float64_lt_zero (ls_InboundQps lr)" "float64_lt_zero (ls_HighestCpuUsage lr)"
    "float64_lt_zero (ls_HighestSystemLoad lr)"
  shows "resolveTypeAndCount lr = (404, Finite (- 1)) \<and>
     LegacySystemRule_ToGoRule lr =
       Some \<lparr>sr_ID = ls_ID lr, sr_TriggerCount = Finite (- 1), sr_MetricType = 404,
             sr_Strategy = NoAdaptive\<rparr> \<and>
     (Unmarshal data = Inr d \<and> None \<notin> set (Data d) \<and> Some lr \<in> set (Data d) \<longrightarrow>
        (\<exists>w' arr. onSystemRuleChange Unmarshal LoadRules data w = Inr w' \<and>
           calls w' = calls w @ [SystemLoadRules arr] \<and>
           length arr = length (Data d) \<and>
           \<lparr>sr_ID = ls_ID lr, sr_TriggerCount = Finite (- 1), sr_MetricType = 404,
             sr_Strategy = NoAdaptive\<rparr> \<in> set arr))"
proof -
  let ?marker = "\<lparr>sr_ID = ls_ID lr, sr_TriggerCount = Finite (- 1), sr_MetricType = 404,
             sr_Strategy = NoAdaptive\<rparr>"
  have res: "resolveTypeAndCount lr = (404, Finite (- 1))"
    using assms by (rule resolve_all_negative)
  have rule: "LegacySystemRule_ToGoRule lr = Some ?marker"
    by (simp add: LegacySystemRule_ToGoRule_def res Load_def CpuUsage_def)
  have handler: "\<exists>w' arr. onSystemRuleChange Unmarshal LoadRules data w = Inr w' \<and>
           calls w' = calls w @ [SystemLoadRules arr] \<and>
           length arr = length (Data d) \<and> ?marker \<in> set arr"
    if d: "Unmarshal data = Inr d" "None \<notin> set (Data d)" and lr: "Some lr \<in> set (Data d)"
  proof -
    let ?arr = "List.map_filter LegacySystemRule_ToGoRule (map the (Data d))"
    have "lr \<in> set (map the (Data d))"
      using lr by force
    then have "?marker \<in> set ?arr"
      using rule by (rule mem_map_filter)
    moreover have "length ?arr = length (Data d)"
      by (simp add: length_map_filter_total LegacySystemRule_ToGoRule_total)
    ultimately show ?thesis
      using d by (simp add: onSystemRuleChange_decoded [where d = d] calls_load calls_write_log)
  qed
  from res rule handler show ?thesis by blast
qed

theorem all_negative_rule_is_marked_and_passed_on_witness:
  "sint (ls_AvgRt all_negative) < 0 \<and> sint (ls_MaxConcurrency all_negative) < 0 \<and>
   float64_lt_zero (ls_InboundQps all_negative) \<and>
   float64_lt_zero (ls_HighestCpuUsage all_negative) \<and>
   float64_lt_zero (ls_HighestSystemLoad all_negative) \<and>
   resolveTypeAndCount all_negative = (404, Finite (- 1)) \<and>
   (\<exists>w' arr.
      onSystemRuleChange (decoded \<lparr>Version = ''1'', Data = [Some all_negative]\<rparr>) accepted ''{}''
        start = Inr w' \<and>
      calls w' = [SystemLoadRules arr] \<and> length arr = 1 \<and>
      \<lparr>sr_ID = 7, sr_TriggerCount = Finite (- 1), sr_MetricType = 404,
        sr_Strategy = NoAdaptive\<rparr> \<in> set arr)"
proof -
  have h: "sint (ls_AvgRt all_negative) < 0" "sint (ls_MaxConcurrency all_negative) < 0"
    "float64_lt_zero (ls_InboundQps all_negative)"
    "float64_lt_zero (ls_HighestCpuUsage all_negative)"
    "float64_lt_zero (ls_HighestSystemLoad all_negative)"
    by (simp_all add: all_negative_def)
  have d: "decoded \<lparr>Version = ''1'', Data = [Some all_negative]\<rparr> ''{}'' =
      Inr \<lparr>Version = ''1'', Data = [Some all_negative]\<rparr> \<and>
      None \<notin> set (Data \<lparr>Version = ''1'', Data = [Some all_negative]\<rparr>) \<and>
      Some all_negative \<in> set (Data \<lparr>Version = ''1'', Data = [Some all_negative]\<rparr>)"
    by (simp add: decoded_def)
  have i: "ls_ID all_negative = 7" "calls start = []"
    by (simp_all add: all_negative_def start_def)
  from all_negative_rule_is_marked_and_passed_on [OF h, of "decoded \<lparr>Version = ''1'', Data = [Some all_negative]\<rparr>" "''{}''"
      "\<lparr>Version = ''1'', Data = [Some all_negative]\<rparr>" accepted start] d i h
  show ?thesis by simp
qed

text \<open>
  The specification has the handler drop such a rule. It does not: the payload whose
  only rule has -1 in all five fields makes the handler pass the marker to the engine.
\<close>

theorem all_negative_rule_is_not_dropped:
  "sint (ls_AvgRt all_negative) < 0 \<and> sint (ls_MaxConcurrency all_negative) < 0 \<and>
   float64_lt_zero (ls_InboundQps all_negative) \<and>
   float64_lt_zero (ls_HighestCpuUsage all_negative) \<and>
   float64_lt_zero (ls_HighestSystemLoad all_negative) \<and>
   map_sum id calls
     (onSystemRuleChange (decoded \<lparr>Version = ''1'', Data = [Some all_negative]\<rparr>) accepted ''{}'' start) =
   Inr [SystemLoadRules [\<lparr>sr_ID = 7, sr_TriggerCount = Finite (- 1), sr_MetricType = 404,
                           sr_Strategy = NoAdaptive\<rparr>]]"
  by (simp add: all_negative_def onSystemRuleChange_def decoded_def accepted_def start_def
      LegacySystemRule_ToGoRule_def resolveTypeAndCount_def load_def write_log_def Load_def CpuUsage_def)

subsection \<open>Circuit breaking rules\<close>

text \<open>
  Claim C3. A legacy circuit breaking rule of grade 0 becomes a rule with the strategy
  slow request ratio whose \<open>Threshold\<close> is the legacy \<open>slowRatioThreshold\<close> and whose
  \<open>MaxAllowedRtMs\<close> is the legacy \<open>count\<close>, converted to \<open>uint64\<close>: the integer part of
  a count from 0 up to \<open>2 ^ 64\<close>, hence a whole count itself.
\<close>

theorem slow_ratio_rule_cross_assigns_fields:
  assumes "ld_Strategy lr = 0"
  shows "\<exists>r. LegacyDegradeRule_ToGoRule impl lr = Some r \<and>
     cb_Strategy r = SlowRequestRatio \<and>
     cb_Threshold r = ld_SlowRatioThreshold lr \<and>
     cb_MaxAllowedRtMs r = uint64_of_float64 impl (ld_Threshold lr) \<and>
     (\<forall>x. ld_Threshold lr = Finite x \<and> 0 \<le> x \<and> x < 2 ^ 64 \<longrightarrow>
        uint (cb_MaxAllowedRtMs r) = \<lfloor>x\<rfloor>) \<and>
     (\<forall>n. ld_Threshold lr = Finite (real n) \<and> n < 2 ^ 64 \<longrightarrow> unat (cb_MaxAllowedRtMs r) = n)"
proof -
  let ?m = "uint64_of_float64 impl (ld_Threshold lr)"
  have in_range: "uint ?m = \<lfloor>x\<rfloor>" if "ld_Threshold lr = Finite x" "0 \<le> x" "x < 2 ^ 64" for x
    using that by (simp only: uint64_of_float64_in_range)
  have whole: "unat ?m = n" if "ld_Threshold lr = Finite (real n)" "n < 2 ^ 64" for n
  proof -
    have "uint ?m = \<lfloor>real n\<rfloor>"
      using that by (intro in_range) simp_all
    then show ?thesis by (simp add: unat_eq_nat_uint)
  qed
  show ?thesis
    using assms in_range whole by (simp add: LegacyDegradeRule_ToGoRule_def)
qed

theorem slow_ratio_rule_cross_assigns_fields_witness:
  "ld_Strategy slow_rule = 0 \<and>
   (\<exists>r. LegacyDegradeRule_ToGoRule indefinite slow_rule = Some r \<and>
      cb_Strategy r = SlowRequestRatio \<and> cb_Threshold r = Finite (1 / 2) \<and>
      cb_MaxAllowedRtMs r = 200)"
proof -
  have h: "ld_Strategy slow_rule = 0" by (simp add: slow_rule_def)
  have t: "ld_Threshold slow_rule = Finite (real 200)" "(200::nat) < 2 ^ 64"
    "ld_SlowRatioThreshold slow_rule = Finite (1 / 2)"
    by (simp_all add: slow_rule_def)
  from slow_ratio_rule_cross_assigns_fields [OF h, of indefinite] obtain r where
    r: "LegacyDegradeRule_ToGoRule indefinite slow_rule = Some r"
      "cb_Strategy r = SlowRequestRatio" "cb_Threshold r = ld_SlowRatioThreshold slow_rule"
      "\<forall>n. ld_Threshold slow_rule = Finite (real n) \<and> n < 2 ^ 64 \<longrightarrow> unat (cb_MaxAllowedRtMs r) = n"
    by blast
  from r(4) t have "unat (cb_MaxAllowedRtMs r) = 200" by blast
  then have "cb_MaxAllowedRtMs r = 200"
    by (simp add: word_unat_eq_iff)
  with h r t show ?thesis by simp
qed

lemma LegacyDegradeRule_ToGoRule_None_iff:
  "LegacyDegradeRule_ToGoRule impl lr \<noteq> None \<longleftrightarrow> ld_Strategy lr \<in> {0, 1, 2}"
  by (simp add: LegacyDegradeRule_ToGoRule_def Let_def)

text \<open>
  Claim C4. The grades 0, 1 and 2 become the strategies slow request ratio, error
  ratio and error count; for any other grade the translator returns \<open>nil\<close>. The
  handler filters the \<open>nil\<close> out and raises no error: for a payload that decodes, with
  no \<open>null\<close> among its rules, it passes to the engine the translations of the rules
  of grade 0, 1 or 2, in order, and nothing else.
\<close>

theorem unknown_grade_is_filtered_out:
  "(ld_Strategy lr \<notin> {0, 1, 2} \<longrightarrow> LegacyDegradeRule_ToGoRule impl lr = None) \<and>
   (ld_Strategy lr = 0 \<longrightarrow>
      (\<exists>r. LegacyDegradeRule_ToGoRule impl lr = Some r \<and> cb_Strategy r = SlowRequestRatio)) \<and>
   (ld_Strategy lr = 1 \<longrightarrow>
      (\<exists>r. LegacyDegradeRule_ToGoRule impl lr = Some r \<and> cb_Strategy r = ErrorRatio)) \<and>
   (ld_Strategy lr = 2 \<longrightarrow>
      (\<exists>r. LegacyDegradeRule_ToGoRule impl lr = Some r \<and> cb_Strategy r = ErrorCount)) \<and>
   (Unmarshal data = Inr d \<and> None \<notin> set (Data d) \<longrightarrow>
      (\<exists>w' arr. onCircuitBreakingRuleChange impl Unmarshal LoadRules data w = Inr w' \<and>
         calls w' = calls w @ [CircuitBreakerLoadRules arr] \<and>
         map Some arr =
           map (LegacyDegradeRule_ToGoRule impl)
             (filter (\<lambda>r. ld_Strategy r \<in> {0, 1, 2}) (map the (Data d)))))"
proof -
  have none: "LegacyDegradeRule_ToGoRule impl lr = None" if "ld_Strategy lr \<notin> {0, 1, 2}"
    using that LegacyDegradeRule_ToGoRule_None_iff [of impl lr] by simp
  have slow: "\<exists>r. LegacyDegradeRule_ToGoRule impl lr = Some r \<and> cb_Strategy r = SlowRequestRatio"
    if "ld_Strategy lr = 0"
    using that by (simp add: LegacyDegradeRule_ToGoRule_def)
  have ratio: "\<exists>r. LegacyDegradeRule_ToGoRule impl lr = Some r \<and> cb_Strategy r = ErrorRatio"
    if "ld_Strategy lr = 1"
    using that by (simp add: LegacyDegradeRule_ToGoRule_def)
  have count: "\<exists>r. LegacyDegradeRule_ToGoRule impl lr = Some r \<and> cb_Strategy r = ErrorCount"
    if "ld_Strategy lr = 2"
    using that by (simp add: LegacyDegradeRule_ToGoRule_def)
  have handler: "\<exists>w' arr. onCircuitBreakingRuleChange impl Unmarshal LoadRules data w = Inr w' \<and>
         calls w' = calls w @ [CircuitBreakerLoadRules arr] \<and>
         map Some arr =
           map (LegacyDegradeRule_ToGoRule impl)
             (filter (\<lambda>r. ld_Strategy r \<in> {0, 1, 2}) (map the (Data d)))"
    if d: "Unmarshal data = Inr d" "None \<notin> set (Data d)"
  proof -
    let ?arr = "List.map_filter (LegacyDegradeRule_ToGoRule impl) (map the (Data d))"
    have "map Some ?arr =
        map (LegacyDegradeRule_ToGoRule impl)
          (filter (\<lambda>r. ld_Strategy r \<in> {0, 1, 2}) (map the (Data d)))"
      by (simp only: map_Some_map_filter LegacyDegradeRule_ToGoRule_None_iff)
    then show ?thesis
      using d
      by (simp add: onCircuitBreakingRuleChange_decoded [where d = d] calls_load calls_write_log)
  qed
  from none slow ratio count handler show ?thesis by blast
qed

theorem unknown_grade_is_filtered_out_witness:
  "ld_Strategy unknown_grade_rule \<notin> {0, 1, 2} \<and>
   LegacyDegradeRule_ToGoRule indefinite unknown_grade_rule = None \<and>
   ld_Strategy slow_rule = 0 \<and>
   (\<exists>r. LegacyDegradeRule_ToGoRule indefinite slow_rule = Some r \<and>
      cb_Strategy r = SlowRequestRatio) \<and>
   ld_Strategy (slow_rule\<lparr>ld_Strategy := 1\<rparr>) = 1 \<and>
   (\<exists>r. LegacyDegradeRule_ToGoRule indefinite (slow_rule\<lparr>ld_Strategy := 1\<rparr>) = Some r \<and>
      cb_Strategy r = ErrorRatio) \<and>
   ld_Strategy (slow_rule\<lparr>ld_Strategy := 2\<rparr>) = 2 \<and>
   (\<exists>r. LegacyDegradeRule_ToGoRule indefinite (slow_rule\<lparr>ld_Strategy := 2\<rparr>) = Some r \<and>
      cb_Strategy r = ErrorCount) \<and>
   (\<exists>w' arr.
      onCircuitBreakingRuleChange indefinite
        (decoded \<lparr>Version = ''1'', Data = [Some unknown_grade_rule, Some slow_rule]\<rparr>)
        accepted ''{}'' start = Inr w' \<and>
      calls w' = [CircuitBreakerLoadRules arr] \<and>
      map Some arr = [LegacyDegradeRule_ToGoRule indefinite slow_rule])"
proof -
  let ?d = "\<lparr>Version = ''1'', Data = [Some unknown_grade_rule, Some slow_rule]\<rparr>"
  have g: "ld_Strategy unknown_grade_rule \<notin> {0, 1, 2}" "ld_Strategy slow_rule = 0"
    "ld_Strategy (slow_rule\<lparr>ld_Strategy := 1\<rparr>) = 1"
    "ld_Strategy (slow_rule\<lparr>ld_Strategy := 2\<rparr>) = 2"
    by (simp_all add: unknown_grade_rule_def slow_rule_def)
  have d: "decoded ?d ''{}'' = Inr ?d \<and> None \<notin> set (Data ?d)"
    by (simp add: decoded_def)
  have s: "calls start = []"
    by (simp add: start_def)
  have f: "filter (\<lambda>r. ld_Strategy r \<in> {0, 1, 2}) (map the (Data ?d)) = [slow_rule]"
    using g by simp
  show ?thesis
    using unknown_grade_is_filtered_out [of unknown_grade_rule indefinite "decoded ?d" "''{}''" ?d accepted start]
      unknown_grade_is_filtered_out [of slow_rule indefinite "decoded ?d" "''{}''" ?d accepted start]
      unknown_grade_is_filtered_out [of "slow_rule\<lparr>ld_Strategy := 1\<rparr>" indefinite "decoded ?d" "''{}''" ?d accepted start]
      unknown_grade_is_filtered_out [of "slow_rule\<lparr>ld_Strategy := 2\<rparr>" indefinite "decoded ?d" "''{}''" ?d accepted start]
      g d s f
    by simp
qed

subsection \<open>Hot-spot parameter rules\<close>

lemma exact_kind_cases:
  "exact_kind tag =
     (if tag = ''int'' \<or> tag = ''long'' then KindInt
      else if tag = ''bool'' \<or> tag = ''boolean'' then KindBool
      else if tag = ''double'' \<or> tag = ''float'' then KindFloat64
      else KindString)"
  by (simp add: exact_kind_def)

lemma specificItems_kept:
  "None \<notin> set vs \<Longrightarrow>
   specificItems impl vs items =
   Inr (items @ map (specific_value impl) (filter (\<lambda>v. pi_Value v \<noteq> []) (map the vs)))"
proof (induction vs arbitrary: items)
  case Nil
  then show ?case by simp
next
  case (Cons a vs)
  then obtain v where a: "a = Some v" by (cases a) auto
  from Cons have IH: "\<And>items. specificItems impl vs items =
      Inr (items @ map (specific_value impl) (filter (\<lambda>v. pi_Value v \<noteq> []) (map the vs)))"
    by simp
  show ?case
    by (simp add: a IH specific_value_def exact_kind_cases)
qed

lemma LegacyParamFlowRule_ToGoRule_items:
  assumes "None \<notin> set (lp_SpecificItems lr)"
  shows "\<exists>r. LegacyParamFlowRule_ToGoRule impl lr = Inr (Some r) \<and>
     hr_SpecificItems r = map (specific_value impl) (kept_items lr) \<and>
     hr_Threshold r = lp_Threshold lr"
proof (cases "lp_SpecificItems lr = []")
  case True
  then show ?thesis
    by (simp add: LegacyParamFlowRule_ToGoRule_def kept_items_def)
next
  case False
  then show ?thesis
    using specificItems_kept [OF assms, of impl "[]"]
    by (simp add: LegacyParamFlowRule_ToGoRule_def kept_items_def)
qed

lemma override_rule_translated:
  "LegacyParamFlowRule_ToGoRule indefinite override_rule =
     Inr (Some \<lparr>hr_ID = ''1'', hr_Resource = ''r'', hr_MetricType = 1,
                hr_Threshold = Finite (5 / 2), hr_ControlBehavior = Reject, hr_ParamIndex = 0,
                hr_MaxQueueingTimeMs = 0, hr_BurstCount = 0, hr_DurationInSec = 1,
                hr_ParamsMaxCapacity = 500,
                hr_SpecificItems =
                  [\<lparr>sv_ValKind = KindInt, sv_ValStr = ''7'', sv_Threshold = 3\<rparr>,
                   \<lparr>sv_ValKind = KindString, sv_ValStr = ''x'', sv_Threshold = - 1\<rparr>]\<rparr>)"
  by (simp add: override_rule_def LegacyParamFlowRule_ToGoRule_def trunc_def Itoa_def
      FormatUint.simps digit_def)

lemma kept_override: "kept_items override_rule =
   [\<lparr>pi_Value = ''7'', pi_Threshold = Finite (7 / 2), pi_ParamType = ''int''\<rparr>,
    \<lparr>pi_Value = ''x'', pi_Threshold = Finite (- (3 / 2)), pi_ParamType = ''INT''\<rparr>]"
  by (simp add: kept_items_def override_rule_def)

text \<open>
  Claim C5, amended. The kind of an override item with a value is found by exact,
  case-sensitive comparison of its type tag: \<open>int\<close> and \<open>long\<close> give the integer kind,
  \<open>bool\<close> and \<open>boolean\<close> the boolean kind, \<open>double\<close> and \<open>float\<close> the float kind, any
  other tag, such as \<open>INT\<close>, the string kind. (The rule's items are taken not to be
  \<open>nil\<close>.)
\<close>

theorem value_kind_by_exact_tag:
  assumes "None \<notin> set (lp_SpecificItems lr)"
  shows "\<exists>r. LegacyParamFlowRule_ToGoRule impl lr = Inr (Some r) \<and>
     map sv_ValKind (hr_SpecificItems r) = map (exact_kind \<circ> pi_ParamType) (kept_items lr)"
  using LegacyParamFlowRule_ToGoRule_items [OF assms, of impl]
  by (auto simp: specific_value_def comp_def)

theorem value_kind_by_exact_tag_witness:
  "None \<notin> set (lp_SpecificItems override_rule) \<and>
   (\<exists>r. LegacyParamFlowRule_ToGoRule indefinite override_rule = Inr (Some r) \<and>
      map sv_ValKind (hr_SpecificItems r) = [KindInt, KindString])"
proof -
  have h: "None \<notin> set (lp_SpecificItems override_rule)"
    by (simp add: override_rule_def)
  show ?thesis
    using h value_kind_by_exact_tag [OF h, of indefinite]
    by (simp add: kept_override exact_kind_def)
qed

text \<open>
  A comparison that ignores case would give the tag \<open>INT\<close> the integer kind. The
  translator gives the item with that tag the string kind.
\<close>

theorem upper_case_tag_gets_string_kind:
  "lp_SpecificItems override_rule ! 2 =
     Some \<lparr>pi_Value = ''x'', pi_Threshold = Finite (- (3 / 2)), pi_ParamType = ''INT''\<rparr> \<and>
   folded_kind ''INT'' = KindInt \<and>
   map_sum id (map_option (map sv_ValKind \<circ> hr_SpecificItems))
     (LegacyParamFlowRule_ToGoRule indefinite override_rule) = Inr (Some [KindInt, KindString])"
  by (simp add: override_rule_translated)
    (simp add: override_rule_def folded_kind_def to_lower_def exact_kind_def)

text \<open>
  Claim C6. The override items with an empty value are left out of the translated
  \<open>SpecificItems\<close>: the list holds the non-empty values in order, and has as many
  entries as the rule has items with a non-empty value. (The rule's items are taken not
  to be \<open>nil\<close>.)
\<close>

theorem empty_values_are_skipped:
  assumes "None \<notin> set (lp_SpecificItems lr)"
  shows "\<exists>r. LegacyParamFlowRule_ToGoRule impl lr = Inr (Some r) \<and>
     map sv_ValStr (hr_SpecificItems r) =
       filter (\<lambda>s. s \<noteq> []) (map (\<lambda>v. pi_Value (the v)) (lp_SpecificItems lr)) \<and>
     length (hr_SpecificItems r) =
       length (filter (\<lambda>v. pi_Value (the v) \<noteq> []) (lp_SpecificItems lr))"
proof -
  from LegacyParamFlowRule_ToGoRule_items [OF assms, of impl] obtain r where
    r: "LegacyParamFlowRule_ToGoRule impl lr = Inr (Some r)"
      "hr_SpecificItems r = map (specific_value impl) (kept_items lr)"
    by blast
  have "map sv_ValStr (hr_SpecificItems r) =
      filter (\<lambda>s. s \<noteq> []) (map (\<lambda>v. pi_Value (the v)) (lp_SpecificItems lr))"
    by (simp add: r(2) kept_items_def specific_value_def comp_def filter_map)
  moreover have "length (hr_SpecificItems r) =
      length (filter (\<lambda>v. pi_Value (the v) \<noteq> []) (lp_SpecificItems lr))"
    by (simp add: r(2) kept_items_def filter_map comp_def)
  ultimately show ?thesis using r(1) by simp
qed

theorem empty_values_are_skipped_witness:
  "None \<notin> set (lp_SpecificItems override_rule) \<and> length (lp_SpecificItems override_rule) = 3 \<and>
   (\<exists>r. LegacyParamFlowRule_ToGoRule indefinite override_rule = Inr (Some r) \<and>
      map sv_ValStr (hr_SpecificItems r) = [''7'', ''x''] \<and> length (hr_SpecificItems r) = 2)"
proof -
  have h: "None \<notin> set (lp_SpecificItems override_rule)"
    by (simp add: override_rule_def)
  have i: "lp_SpecificItems override_rule =
     [Some \<lparr>pi_Value = ''7'', pi_Threshold = Finite (7 / 2), pi_ParamType = ''int''\<rparr>,
      Some \<lparr>pi_Value = [], pi_Threshold = Finite 1, pi_ParamType = ''int''\<rparr>,
      Some \<lparr>pi_Value = ''x'', pi_Threshold = Finite (- (3 / 2)), pi_ParamType = ''INT''\<rparr>]"
    by (simp add: override_rule_def)
  show ?thesis
    using h empty_values_are_skipped [OF h, of indefinite]
    by (simp add: i numeral_2_eq_2)
qed

text \<open>
  Claim C10. The threshold of every override item that is kept is the \<open>int64\<close>
  conversion of the item's \<open>float64\<close> count, the count with its fraction discarded
  whenever that integer fits an \<open>int64\<close>; the threshold of the rule itself is the
  legacy \<open>float64\<close> count, unchanged. (The rule's items are taken not to be \<open>nil\<close>.)
\<close>

theorem item_threshold_is_truncated:
  assumes "None \<notin> set (lp_SpecificItems lr)"
  shows "\<exists>r. LegacyParamFlowRule_ToGoRule impl lr = Inr (Some r) \<and>
     hr_Threshold r = lp_Threshold lr \<and>
     map sv_Threshold (hr_SpecificItems r) =
       map (\<lambda>v. int64_of_float64 impl (pi_Threshold v)) (kept_items lr) \<and>
     (\<forall>v \<in> set (kept_items lr). \<forall>x.
        pi_Threshold v = Finite x \<and> - (2 ^ 63) \<le> trunc x \<and> trunc x < 2 ^ 63 \<longrightarrow>
        sint (int64_of_float64 impl (pi_Threshold v)) = trunc x)"
proof -
  from LegacyParamFlowRule_ToGoRule_items [OF assms, of impl] obtain r where
    r: "LegacyParamFlowRule_ToGoRule impl lr = Inr (Some r)"
      "hr_SpecificItems r = map (specific_value impl) (kept_items lr)"
      "hr_Threshold r = lp_Threshold lr"
    by blast
  have "map sv_Threshold (hr_SpecificItems r) =
       map (\<lambda>v. int64_of_float64 impl (pi_Threshold v)) (kept_items lr)"
    by (simp add: r(2) specific_value_def comp_def)
  moreover have "\<forall>v \<in> set (kept_items lr). \<forall>x.
        pi_Threshold v = Finite x \<and> - (2 ^ 63) \<le> trunc x \<and> trunc x < 2 ^ 63 \<longrightarrow>
        sint (int64_of_float64 impl (pi_Threshold v)) = trunc x"
  proof (intro ballI allI impI)
    fix v x
    assume "pi_Threshold v = Finite x \<and> - (2 ^ 63) \<le> trunc x \<and> trunc x < 2 ^ 63"
    then show "sint (int64_of_float64 impl (pi_Threshold v)) = trunc x"
      by (simp only: int64_of_float64_in_range)
  qed
  ultimately show ?thesis using r(1,3) by simp
qed

theorem item_threshold_is_truncated_witness:
  "None \<notin> set (lp_SpecificItems override_rule) \<and>
   (\<exists>r. LegacyParamFlowRule_ToGoRule indefinite override_rule = Inr (Some r) \<and>
      hr_Threshold r = Finite (5 / 2) \<and>
      map (\<lambda>s. sint (sv_Threshold s)) (hr_SpecificItems r) = [3, - 1])"
proof -
  have h: "None \<notin> set (lp_SpecificItems override_rule)"
    by (simp add: override_rule_def)
  have t: "lp_Threshold override_rule = Finite (5 / 2)"
    by (simp add: override_rule_def)
  have x: "trunc (7 / 2) = 3" "trunc (- (3 / 2)) = - 1"
    by (simp_all add: trunc_def)
  from item_threshold_is_truncated [OF h, of indefinite] obtain r where
    r: "LegacyParamFlowRule_ToGoRule indefinite override_rule = Inr (Some r)"
      "hr_Threshold r = lp_Threshold override_rule"
      "map sv_Threshold (hr_SpecificItems r) =
         map (\<lambda>v. int64_of_float64 indefinite (pi_Threshold v)) (kept_items override_rule)"
      "\<forall>v \<in> set (kept_items override_rule). \<forall>x.
        pi_Threshold v = Finite x \<and> - (2 ^ 63) \<le> trunc x \<and> trunc x < 2 ^ 63 \<longrightarrow>
        sint (int64_of_float64 indefinite (pi_Threshold v)) = trunc x"
    by blast
  have m: "\<lparr>pi_Value = ''7'', pi_Threshold = Finite (7 / 2), pi_ParamType = ''int''\<rparr>
        \<in> set (kept_items override_rule)"
      "\<lparr>pi_Value = ''x'', pi_Threshold = Finite (- (3 / 2)), pi_ParamType = ''INT''\<rparr>
        \<in> set (kept_items override_rule)"
    by (simp_all add: kept_override)
  have a: "sint (int64_of_float64 indefinite (Finite (7 / 2))) = 3"
    using r(4) [rule_format, OF m(1), of "7 / 2"] x
    by (simp del: int64_of_float64.simps)
  have b: "sint (int64_of_float64 indefinite (Finite (- (3 / 2)))) = - 1"
    using r(4) [rule_format, OF m(2), of "- (3 / 2)"] x
    by (simp del: int64_of_float64.simps)
  have k: "map sv_Threshold (hr_SpecificItems r) =
      [int64_of_float64 indefinite (Finite (7 / 2)),
       int64_of_float64 indefinite (Finite (- (3 / 2)))]"
    using r(3) by (simp add: kept_override del: int64_of_float64.simps)
  have "map (\<lambda>s. sint (sv_Threshold s)) (hr_SpecificItems r) =
      map sint (map sv_Threshold (hr_SpecificItems r))"
    by simp
  then have "map (\<lambda>s. sint (sv_Threshold s)) (hr_SpecificItems r) = [3, - 1]"
    by (simp only: k list.map a b)
  with h r(1,2) t show ?thesis by simp
qed

subsection \<open>Payloads that do not decode\<close>

text \<open>
  Claim C8. When the payload fails to decode, the handler of each of the four
  categories returns, without a panic, having made no call of the engine: the engine's
  state and the list of calls are as before, so the rule set installed earlier stays.
\<close>

theorem decode_failure_keeps_rule_sets:
  "(UnmarshalFlow data = Inl err \<longrightarrow>
      (\<exists>w'. onFlowRuleChange UnmarshalFlow LoadFlow data w = Inr w' \<and>
         engine w' = engine w \<and> calls w' = calls w)) \<and>
   (UnmarshalSystem data = Inl err \<longrightarrow>
      (\<exists>w'. onSystemRuleChange UnmarshalSystem LoadSystem data w = Inr w' \<and>
         engine w' = engine w \<and> calls w' = calls w)) \<and>
   (UnmarshalDegrade data = Inl err \<longrightarrow>
      (\<exists>w'. onCircuitBreakingRuleChange impl UnmarshalDegrade LoadDegrade data w = Inr w' \<and>
         engine w' = engine w \<and> calls w' = calls w)) \<and>
   (UnmarshalParam data = Inl err \<longrightarrow>
      (\<exists>w'. onParamFlowRuleChange impl' UnmarshalParam LoadParam data w = Inr w' \<and>
         engine w' = engine w \<and> calls w' = calls w))"
  by (simp add: onFlowRuleChange_def onSystemRuleChange_def onCircuitBreakingRuleChange_def
      onParamFlowRuleChange_def Let_def engine_write_log calls_write_log)

theorem decode_failure_keeps_rule_sets_witness:
  "(\<exists>w'. onFlowRuleChange (rejected ''unexpected end of JSON input'') accepted ''{'' start = Inr w' \<and>
      engine w' = engine start \<and> calls w' = []) \<and>
   (\<exists>w'. onSystemRuleChange (rejected ''unexpected end of JSON input'') accepted ''{'' start = Inr w' \<and>
      engine w' = engine start \<and> calls w' = []) \<and>
   (\<exists>w'. onCircuitBreakingRuleChange indefinite (rejected ''unexpected end of JSON input'') accepted
        ''{'' start = Inr w' \<and>
      engine w' = engine start \<and> calls w' = []) \<and>
   (\<exists>w'. onParamFlowRuleChange indefinite (rejected ''unexpected end of JSON input'') accepted
        ''{'' start = Inr w' \<and>
      engine w' = engine start \<and> calls w' = [])"
proof -
  have r: "\<And>x. rejected ''unexpected end of JSON input'' x = Inl ''unexpected end of JSON input''"
    by (simp add: rejected_def)
  have s: "calls start = []"
    by (simp add: start_def)
  show ?thesis
    using decode_failure_keeps_rule_sets [of "rejected ''unexpected end of JSON input''" "''{''"
        "''unexpected end of JSON input''" accepted start
        "rejected ''unexpected end of JSON input''" accepted
        "rejected ''unexpected end of JSON input''" indefinite accepted
        "rejected ''unexpected end of JSON input''" indefinite accepted]
    by (simp only: r s simp_thms)
qed

end
